theory Spec2Isabelle
  imports Complex_Main "HOL-Library.Sublist"
begin

section \<open>Webhook transaction processor (app.py)\<close>

text \<open>
  A shallow embedding of \<^verbatim>\<open>src/app.py\<close>: the intake handler \<^verbatim>\<open>receive_webhook\<close>,
  the background worker \<^verbatim>\<open>process_transaction_background\<close>, the status query
  \<^verbatim>\<open>get_transaction_status\<close> and \<^verbatim>\<open>startup_event\<close>.

  What lies outside the file is modelled as its environment:
  \<^item> the MongoDB collection \<^verbatim>\<open>db.transactions\<close> is a list of documents plus a flag that
    says whether the unique index on \<^verbatim>\<open>transaction_id\<close> exists;
  \<^item> a store call can fail for a reason of the infrastructure; such a failure is an
    input of the call (\<open>Some text\<close>, the text being \<^verbatim>\<open>str(e)\<close> of the raised exception);
  \<^item> there are two clocks in the state: the wall clock that \<^verbatim>\<open>datetime.utcnow()\<close> reads,
    which passes with time and can also be set, forward or back; and the monotonic
    time that \<^verbatim>\<open>time.sleep\<close> counts, which only passes. A time stamp is the number of
    seconds read from the wall clock, the ISO rendering \<^verbatim>\<open>isoformat() + "Z"\<close> of the
    source being left abstract;
  \<^item> starting a thread can fail; such a failure is an input of the intake, like a
    failure of the store;
  \<^item> \<^verbatim>\<open>str.lower()\<close> follows the Unicode tables of the interpreter, which are not part
    of the file: the function is a parameter \<open>L\<close> of the intake, and a property that
    depends on what it does to a text says so;
  \<^item> \<^verbatim>\<open>float\<close> amounts are real numbers;
  \<^item> the log is a list of entries, so that what is logged can be stated.
\<close>

subsection \<open>Data model\<close>

type_synonym timestamp = nat

text \<open>\<^verbatim>\<open>class WebhookRequest(BaseModel)\<close>, lines 31-36.\<close>

record WebhookRequest =
  transaction_id :: string
  source_account :: string
  destination_account :: string
  amount :: real
  currency :: string

text \<open>
  The document built at lines 147-156: the five request fields and \<^verbatim>\<open>status\<close>,
  \<^verbatim>\<open>created_at\<close>, \<^verbatim>\<open>processed_at\<close>. \<^verbatim>\<open>TransactionResponse\<close> (lines 38-46) has the same
  eight fields. The status is a string in the source and stays one here.
\<close>

record transaction = WebhookRequest +
  status :: string
  created_at :: timestamp
  processed_at :: "timestamp option"

type_synonym TransactionResponse = transaction

datatype level = INFO | WARNING | ERROR

text \<open>
  A thread started by \<^verbatim>\<open>start_background_processing\<close>: its argument, the monotonic
  time at which its \<^verbatim>\<open>time.sleep(30)\<close> ends, and whether it is still running.
\<close>

record thread =
  args :: string
  resume_at :: timestamp
  alive :: bool

record world =
  docs :: "transaction list"
  unique_index :: bool
  threads :: "thread list"
  logger :: "(level \<times> string) list"
  clock :: timestamp
  monotonic :: nat
  serving :: bool

definition init_world :: world where
  "init_world = \<lparr>docs = [], unique_index = False, threads = [], logger = [],
     clock = 0, monotonic = 0, serving = False\<rparr>"

datatype http_exception = HTTPException nat string

subsection \<open>Logging\<close>

definition logger_info :: "string \<Rightarrow> world \<Rightarrow> world" where
  "logger_info msg w = w\<lparr>logger := logger w @ [(INFO, msg)]\<rparr>"

definition logger_warning :: "string \<Rightarrow> world \<Rightarrow> world" where
  "logger_warning msg w = w\<lparr>logger := logger w @ [(WARNING, msg)]\<rparr>"

definition logger_error :: "string \<Rightarrow> world \<Rightarrow> world" where
  "logger_error msg w = w\<lparr>logger := logger w @ [(ERROR, msg)]\<rparr>"

subsection \<open>Strings\<close>

text \<open>
  \<^verbatim>\<open>str.lower()\<close> is a parameter wherever the source calls it. The function below is
  one instance, for the examples: it lower-cases the ASCII letters and keeps every
  other character. On a text of ASCII characters it returns what \<^verbatim>\<open>str.lower()\<close> returns.
\<close>

definition ascii_lower_char :: "char \<Rightarrow> char" where
  "ascii_lower_char c =
     (if 65 \<le> (of_char c :: nat) \<and> (of_char c :: nat) \<le> 90
      then char_of (of_char c + (32 :: nat)) else c)"

definition ascii_lower :: "string \<Rightarrow> string" where
  "ascii_lower s = map ascii_lower_char s"

text \<open>\<^verbatim>\<open>needle in haystack\<close> on strings.\<close>

fun str_in :: "string \<Rightarrow> string \<Rightarrow> bool" where
  "str_in needle [] = (needle = [])"
| "str_in needle (c # cs) = (prefix needle (c # cs) \<or> str_in needle cs)"

subsection \<open>The store\<close>

text \<open>
  The text of the server's duplicate-key write error for the unique index on
  \<^verbatim>\<open>transaction_id\<close>.
\<close>

definition E11000 :: "string \<Rightarrow> string" where
  "E11000 k = ''E11000 duplicate key error collection: webhook_processor.transactions index: transaction_id_1 dup key: { transaction_id: '' @ k @ '' }''"

text \<open>
  \<^verbatim>\<open>insert_one\<close>: with the unique index in place a document whose \<^verbatim>\<open>transaction_id\<close> is
  already stored is refused with the duplicate-key error; without the index the
  document is appended whatever the collection holds.
\<close>

definition insert_one :: "string option \<Rightarrow> transaction \<Rightarrow> world \<Rightarrow> string + world" where
  "insert_one fault doc w =
     (case fault of
        Some e \<Rightarrow> Inl e
      | None \<Rightarrow>
          if unique_index w \<and> transaction_id doc \<in> set (map transaction_id (docs w))
          then Inl (E11000 (transaction_id doc))
          else Inr (w\<lparr>docs := docs w @ [doc]\<rparr>))"

text \<open>\<^verbatim>\<open>find_one({"transaction_id": tid})\<close>: the first matching document.\<close>

definition find_one :: "string option \<Rightarrow> string \<Rightarrow> world \<Rightarrow> string + transaction option" where
  "find_one fault tid w =
     (case fault of
        Some e \<Rightarrow> Inl e
      | None \<Rightarrow> Inr (find (\<lambda>d. transaction_id d = tid) (docs w)))"

fun update_first :: "('a \<Rightarrow> bool) \<Rightarrow> ('a \<Rightarrow> 'a) \<Rightarrow> 'a list \<Rightarrow> 'a list" where
  "update_first P f [] = []"
| "update_first P f (x # xs) = (if P x then f x # xs else x # update_first P f xs)"

text \<open>The \<^verbatim>\<open>$set\<close> of lines 68-71.\<close>

definition set_processed :: "timestamp \<Rightarrow> transaction \<Rightarrow> transaction" where
  "set_processed now d = d\<lparr>status := ''PROCESSED'', processed_at := Some now\<rparr>"

text \<open>
  \<^verbatim>\<open>update_one\<close> with the filter and the \<^verbatim>\<open>$set\<close> of lines 66-72: the first document that
  matches is updated; \<^verbatim>\<open>modified_count\<close> is 1 when that changed the document and 0
  when nothing matched or the document already held these values.
\<close>

definition update_one :: "string option \<Rightarrow> string \<Rightarrow> timestamp \<Rightarrow> world \<Rightarrow> string + nat \<times> world" where
  "update_one fault tid now w =
     (case fault of
        Some e \<Rightarrow> Inl e
      | None \<Rightarrow>
          (case find (\<lambda>d. transaction_id d = tid) (docs w) of
             None \<Rightarrow> Inr (0, w)
           | Some d \<Rightarrow>
               Inr (if set_processed now d = d then 0 else 1,
                    w\<lparr>docs := update_first (\<lambda>d. transaction_id d = tid) (set_processed now) (docs w)\<rparr>)))"

text \<open>
  \<^verbatim>\<open>create_index("transaction_id", unique=True)\<close>: the build fails on a collection that
  already holds two documents with one \<^verbatim>\<open>transaction_id\<close>.
\<close>

definition create_index :: "string option \<Rightarrow> world \<Rightarrow> string + world" where
  "create_index fault w =
     (case fault of
        Some e \<Rightarrow> Inl e
      | None \<Rightarrow>
          if distinct (map transaction_id (docs w))
          then Inr (w\<lparr>unique_index := True\<rparr>)
          else Inl ''E11000 duplicate key error collection: webhook_processor.transactions index: transaction_id_1'')"

subsection \<open>Request validation\<close>

text \<open>
  The constraints of lines 35-36: \<^verbatim>\<open>gt=0\<close> on \<^verbatim>\<open>amount\<close>, \<^verbatim>\<open>min_length=3\<close> and
  \<^verbatim>\<open>max_length=3\<close> on \<^verbatim>\<open>currency\<close>. The framework checks them before
  \<^verbatim>\<open>receive_webhook\<close> is called and collects the violated ones.
\<close>

datatype constraint = Gt | MinLength | MaxLength

definition WebhookRequest_validate ::
  "WebhookRequest \<Rightarrow> (string \<times> constraint) list + WebhookRequest" where
  "WebhookRequest_validate r =
     (let errors =
        (if amount r > 0 then [] else [(''amount'', Gt)]) @
        (if length (currency r) < 3 then [(''currency'', MinLength)]
         else if length (currency r) > 3 then [(''currency'', MaxLength)]
         else [])
      in if errors = [] then Inr r else Inl errors)"

subsection \<open>The settlement worker\<close>

text \<open>
  \<^verbatim>\<open>process_transaction_background\<close> runs in a thread of its own. Lines 56-59 are its
  first part: it logs and enters \<^verbatim>\<open>time.sleep(30)\<close>, which ends no earlier than 30
  seconds of monotonic time after the call.
\<close>

definition process_transaction_background_sleep :: "string \<Rightarrow> world \<Rightarrow> world" where
  "process_transaction_background_sleep tid w =
     (let w1 = logger_info (''Starting background processing for transaction: '' @ tid) w
      in w1\<lparr>threads := threads w1 @ [\<lparr>args = tid, resume_at = monotonic w1 + 30, alive = True\<rparr>]\<rparr>)"

text \<open>
  Lines 61-82, what the thread does when it runs again: one \<^verbatim>\<open>update_one\<close> at the
  current wall-clock time, a log entry that depends on \<^verbatim>\<open>modified_count\<close>, and the handler of
  line 81 for whatever the update raised. \<open>Inl\<close> would be an exception that leaves
  the function.
\<close>

definition process_transaction_background ::
  "string option \<Rightarrow> string \<Rightarrow> world \<Rightarrow> (string + unit) \<times> world" where
  "process_transaction_background fault tid w =
     (case update_one fault tid (clock w) w of
        Inr (modified_count, w1) \<Rightarrow>
          (Inr (),
           if modified_count > 0
           then logger_info (''Transaction processed successfully: '' @ tid) w1
           else logger_warning (''Failed to update transaction: '' @ tid) w1)
      | Inl e \<Rightarrow>
          (Inr (), logger_error (''Error processing transaction '' @ tid @ '': '' @ e) w))"

text \<open>
  Lines 84-92. \<^verbatim>\<open>thread.start()\<close> raises when the thread cannot be started (\<open>Inl\<close>, with
  the text of the exception); then there is no thread and line 92 is not reached.
\<close>

definition start_background_processing :: "string option \<Rightarrow> string \<Rightarrow> world \<Rightarrow> string + world" where
  "start_background_processing tfault tid w =
     (case tfault of
        Some e \<Rightarrow> Inl e
      | None \<Rightarrow>
          Inr (logger_info (''Background processing thread started for: '' @ tid)
                 (process_transaction_background_sleep tid w)))"

subsection \<open>Startup\<close>

text \<open>
  Lines 117-125. \<open>Inl\<close> would be an exception that leaves the handler and stops the
  application from starting.
\<close>

definition startup_event :: "string option \<Rightarrow> world \<Rightarrow> (string + unit) \<times> world" where
  "startup_event fault w =
     (case create_index fault w of
        Inr w1 \<Rightarrow> (Inr (), logger_info ''Database indexes created'' w1)
      | Inl e \<Rightarrow> (Inr (), logger_error (''Failed to create indexes: '' @ e) w))"

subsection \<open>Intake\<close>

text \<open>
  The handler of lines 167-171, with what the outer handler of lines 175-180 does to
  the exception it raises again: an exception whose lower-cased text contains
  \<^verbatim>\<open>duplicate key\<close> is absorbed and the request acknowledged; any other one is logged and
  becomes the \<^verbatim>\<open>HTTPException\<close> with status 500.
\<close>

definition insert_failed ::
  "(string \<Rightarrow> string) \<Rightarrow> string \<Rightarrow> string \<Rightarrow> world \<Rightarrow> (http_exception + string) \<times> world" where
  "insert_failed L e tid w =
     (if str_in ''duplicate key'' (L e)
      then (Inr ''Webhook received'', logger_info (''Duplicate webhook ignored: '' @ tid) w)
      else (Inl (HTTPException 500 ''Failed to process webhook''),
            logger_error (''Error processing webhook: '' @ e) w))"

text \<open>
  Lines 136-180. The inner \<^verbatim>\<open>try\<close> covers the insert and the start of the thread: an
  exception of either reaches the handler above, the second one with the document
  already stored.
\<close>

definition receive_webhook ::
  "(string \<Rightarrow> string) \<Rightarrow> string option \<Rightarrow> string option \<Rightarrow> WebhookRequest \<Rightarrow> world \<Rightarrow>
     (http_exception + string) \<times> world" where
  "receive_webhook L fault tfault webhook_data w =
     (let w0 = logger_info (''Received webhook for transaction: '' @ transaction_id webhook_data) w;
          transaction_doc =
            \<lparr>transaction_id = transaction_id webhook_data,
             source_account = source_account webhook_data,
             destination_account = destination_account webhook_data,
             amount = amount webhook_data,
             currency = currency webhook_data,
             status = ''PROCESSING'',
             created_at = clock w0,
             processed_at = None\<rparr>
      in case insert_one fault transaction_doc w0 of
           Inr w1 \<Rightarrow>
             (let w2 = logger_info (''New transaction created: '' @ transaction_id webhook_data) w1
              in case start_background_processing tfault (transaction_id webhook_data) w2 of
                   Inr w3 \<Rightarrow>
                     (Inr ''Webhook received'',
                      logger_info (''Background processing started for: '' @ transaction_id webhook_data) w3)
                 | Inl e \<Rightarrow> insert_failed L e (transaction_id webhook_data) w2)
         | Inl e \<Rightarrow> insert_failed L e (transaction_id webhook_data) w0)"

subsection \<open>Status query\<close>

text \<open>
  Lines 183-209. The 404 raised at line 192 passes the handler of line 202 unchanged;
  any other exception is logged and becomes the 500 of lines 206-209.
\<close>

definition get_transaction_status ::
  "string option \<Rightarrow> string \<Rightarrow> world \<Rightarrow> (http_exception + TransactionResponse) \<times> world" where
  "get_transaction_status fault tid w =
     (let w0 = logger_info (''Getting status for transaction: '' @ tid) w
      in case find_one fault tid w0 of
           Inr None \<Rightarrow> (Inl (HTTPException 404 (''Transaction not found: '' @ tid)), w0)
         | Inr (Some transaction) \<Rightarrow> (Inr transaction, w0)
         | Inl e \<Rightarrow>
             (Inl (HTTPException 500 ''Failed to retrieve transaction status''),
              logger_error (''Error getting transaction status: '' @ e) w0))"

subsection \<open>The running system\<close>

text \<open>
  What can happen to the system, one event at a time: the application starts, a
  request arrives (with the failures, if any, that its store call and its thread
  start meet), time passes on both clocks, the wall clock is set forward or back, or
  the scheduler runs thread number \<open>i\<close>, which has an effect only once the thread's
  sleep is over.
\<close>

datatype event =
    Startup "string option"
  | Post WebhookRequest "string option" "string option"
  | Get string "string option"
  | Tick nat
  | Adjust int
  | Wake nat "string option"

datatype body =
    Message string
  | Detail string
  | Record TransactionResponse
  | Errors "(string \<times> constraint) list"

datatype outcome = Internal | ConnectionRefused | Http nat body

fun step :: "(string \<Rightarrow> string) \<Rightarrow> event \<Rightarrow> world \<Rightarrow> outcome \<times> world" where
  "step L (Startup fault) w =
     (case startup_event fault w of
        (Inr _, w1) \<Rightarrow> (Internal, w1\<lparr>serving := True\<rparr>)
      | (Inl _, w1) \<Rightarrow> (Internal, w1\<lparr>serving := False\<rparr>))"
| "step L (Post r fault tfault) w =
     (if \<not> serving w then (ConnectionRefused, w)
      else case WebhookRequest_validate r of
             Inl errors \<Rightarrow> (Http 422 (Errors errors), w)
           | Inr webhook_data \<Rightarrow>
               (case receive_webhook L fault tfault webhook_data w of
                  (Inr msg, w1) \<Rightarrow> (Http 202 (Message msg), w1)
                | (Inl (HTTPException code detail), w1) \<Rightarrow> (Http code (Detail detail), w1)))"
| "step L (Get tid fault) w =
     (if \<not> serving w then (ConnectionRefused, w)
      else case get_transaction_status fault tid w of
             (Inr t, w1) \<Rightarrow> (Http 200 (Record t), w1)
           | (Inl (HTTPException code detail), w1) \<Rightarrow> (Http code (Detail detail), w1))"
| "step L (Tick n) w = (Internal, w\<lparr>clock := clock w + n, monotonic := monotonic w + n\<rparr>)"
| "step L (Adjust d) w = (Internal, w\<lparr>clock := nat (int (clock w) + d)\<rparr>)"
| "step L (Wake i fault) w =
     (if i < length (threads w) \<and> alive (threads w ! i) \<and> resume_at (threads w ! i) \<le> monotonic w
      then (let w1 = snd (process_transaction_background fault (args (threads w ! i)) w)
            in (Internal, w1\<lparr>threads := (threads w1)[i := (threads w1 ! i)\<lparr>alive := False\<rparr>]\<rparr>))
      else (Internal, w))"

fun run :: "(string \<Rightarrow> string) \<Rightarrow> event list \<Rightarrow> world \<Rightarrow> outcome list \<times> world" where
  "run L [] w = ([], w)"
| "run L (e # es) w =
     (let (out, w1) = step L e w; (outs, w2) = run L es w1 in (out # outs, w2))"


subsection \<open>Example data\<close>

definition T1 :: WebhookRequest where
  "T1 = \<lparr>transaction_id = ''T1'', source_account = ''acc_user_1'',
     destination_account = ''acc_merchant_1'', amount = 1500, currency = ''INR''\<rparr>"

definition live_world :: world where
  "live_world = \<lparr>docs = [], unique_index = True, threads = [], logger = [],
     clock = 100, monotonic = 100, serving = True\<rparr>"

definition doc_T1 :: transaction where
  "doc_T1 = \<lparr>transaction_id = ''T1'', source_account = ''acc_user_1'',
     destination_account = ''acc_merchant_1'', amount = 1500, currency = ''INR'',
     status = ''PROCESSING'', created_at = 100, processed_at = None\<rparr>"

definition doc_T2 :: transaction where
  "doc_T2 = \<lparr>transaction_id = ''T2'', source_account = ''acc_user_2'',
     destination_account = ''acc_merchant_1'', amount = 20.5, currency = ''USD'',
     status = ''PROCESSING'', created_at = 110, processed_at = None\<rparr>"

definition busy_world :: world where
  "busy_world = \<lparr>docs = [doc_T1, doc_T2], unique_index = True,
     threads = [\<lparr>args = ''T1'', resume_at = 130, alive = True\<rparr>,
                \<lparr>args = ''T2'', resume_at = 140, alive = True\<rparr>],
     logger = [], clock = 135, monotonic = 135, serving = True\<rparr>"




definition status_consistent :: "transaction \<Rightarrow> bool" where
  "status_consistent d =
     ((status d = ''PROCESSING'' \<and> processed_at d = None) \<or>
      (status d = ''PROCESSED'' \<and> processed_at d \<noteq> None))"



definition demo_events :: "event list" where
  "demo_events =
     [Post T1 None None, Tick 5, Post (T1\<lparr>amount := 7, currency := ''USD''\<rparr>) None None,
      Get ''T1'' None, Tick 30, Wake 0 None, Post T1 None None, Adjust 5]"



definition settled_world :: world where
  "settled_world = busy_world\<lparr>docs :=
     [doc_T1\<lparr>status := ''PROCESSED'', processed_at := Some 135\<rparr>, doc_T2]\<rparr>"

section \<open>Properties\<close>

subsection \<open>Lists and strings\<close>

lemma find_None_update_first: "find P xs = None \<Longrightarrow> update_first P f xs = xs"
  by (induction xs) (auto split: if_splits)

lemma find_Some_update_first_id:
  "find P xs = Some d \<Longrightarrow> f d = d \<Longrightarrow> update_first P f xs = xs"
  by (induction xs) (auto split: if_splits)

lemma length_update_first [simp]: "length (update_first P f xs) = length xs"
  by (induction xs) auto

lemma nth_update_first:
  "j < length xs \<Longrightarrow>
     update_first P f xs ! j = xs ! j \<or> (P (xs ! j) \<and> update_first P f xs ! j = f (xs ! j))"
proof (induction xs arbitrary: j)
  case Nil
  then show ?case by simp
next
  case (Cons x xs)
  then show ?case by (cases j) auto
qed

lemma set_update_first:
  "d \<in> set (update_first P f xs) \<Longrightarrow> d \<in> set xs \<or> (\<exists>x\<in>set xs. P x \<and> d = f x)"
  by (induction xs) (auto split: if_splits)





subsection \<open>The store calls and the handlers, field by field\<close>


lemma find_in_image: "tid \<in> f ` set xs \<Longrightarrow> \<exists>d\<in>set xs. f d = tid \<and> find (\<lambda>d. f d = tid) xs = Some d"
  by (induction xs) auto

lemma find_not_in_image: "tid \<notin> f ` set xs \<Longrightarrow> find (\<lambda>d. f d = tid) xs = None"
  by (induction xs) auto

lemma ptb_fst: "fst (process_transaction_background fault tid w) = Inr ()"
  by (simp add: process_transaction_background_def split: sum.splits prod.splits)

lemma update_one_docs:
  "update_one None tid now w = Inr (n, w1) \<Longrightarrow>
     w1 = w\<lparr>docs := update_first (\<lambda>d. transaction_id d = tid) (set_processed now) (docs w)\<rparr>"
  by (auto simp: update_one_def find_None_update_first split: option.splits)

lemma update_one_zero:
  "update_one fault tid now w = Inr (0, w1) \<Longrightarrow> w1 = w"
  by (auto simp: update_one_def find_Some_update_first_id split: option.splits if_splits)

lemma update_one_total: "\<exists>n w1. update_one None tid now w = Inr (n, w1)"
  by (simp add: update_one_def split: option.splits)

lemma update_one_fault [simp]: "update_one (Some e) tid now w = Inl e"
  by (simp add: update_one_def)

lemma ptb_docs:
  "docs (snd (process_transaction_background fault tid w)) =
     (case fault of
        Some e \<Rightarrow> docs w
      | None \<Rightarrow> update_first (\<lambda>d. transaction_id d = tid) (set_processed (clock w)) (docs w))"
proof (cases fault)
  case None
  obtain n w1 where u: "update_one None tid (clock w) w = Inr (n, w1)"
    using update_one_total by blast
  from update_one_docs [OF u] u None show ?thesis
    by (simp add: process_transaction_background_def logger_info_def logger_warning_def)
next
  case (Some e)
  then show ?thesis
    by (simp add: process_transaction_background_def logger_error_def)
qed

lemma ptb_threads: "threads (snd (process_transaction_background fault tid w)) = threads w"
proof (cases fault)
  case None
  obtain n w1 where u: "update_one None tid (clock w) w = Inr (n, w1)"
    using update_one_total by blast
  from update_one_docs [OF u] u None show ?thesis
    by (simp add: process_transaction_background_def logger_info_def logger_warning_def)
next
  case (Some e)
  then show ?thesis
    by (simp add: process_transaction_background_def logger_error_def)
qed

lemma ptb_other_docs:
  assumes "j < length (docs w)" "transaction_id (docs w ! j) \<noteq> tid"
  shows "docs (snd (process_transaction_background fault tid w)) ! j = docs w ! j"
  using assms nth_update_first [of j "docs w" "\<lambda>d. transaction_id d = tid" "set_processed (clock w)"]
  by (auto simp: ptb_docs split: option.splits)

lemma ptb_zero:
  "update_one fault tid (clock w) w = Inr (0, w1) \<Longrightarrow>
     snd (process_transaction_background fault tid w) =
       logger_warning (''Failed to update transaction: '' @ tid) w"
  using update_one_zero [of fault tid "clock w" w w1]
  by (simp add: process_transaction_background_def)

lemma step_Wake_threads:
  "length (threads (snd (step L (Wake i fault) w))) = length (threads w) \<and>
   (\<forall>k<length (threads w). k \<noteq> i \<longrightarrow> threads (snd (step L (Wake i fault) w)) ! k = threads w ! k)"
  by (simp add: ptb_threads Let_def)

lemma logger_fields [simp]:
  "docs (logger_info m w) = docs w" "threads (logger_info m w) = threads w"
  "clock (logger_info m w) = clock w" "unique_index (logger_info m w) = unique_index w"
  "serving (logger_info m w) = serving w" "monotonic (logger_info m w) = monotonic w"
  "docs (logger_warning m w) = docs w" "threads (logger_warning m w) = threads w"
  "clock (logger_warning m w) = clock w" "unique_index (logger_warning m w) = unique_index w"
  "serving (logger_warning m w) = serving w" "monotonic (logger_warning m w) = monotonic w"
  "docs (logger_error m w) = docs w" "threads (logger_error m w) = threads w"
  "clock (logger_error m w) = clock w" "unique_index (logger_error m w) = unique_index w"
  "serving (logger_error m w) = serving w" "monotonic (logger_error m w) = monotonic w"
  by (simp_all add: logger_info_def logger_warning_def logger_error_def)

lemma sleep_fields [simp]:
  "docs (process_transaction_background_sleep tid w) = docs w"
  "threads (process_transaction_background_sleep tid w) =
     threads w @ [\<lparr>args = tid, resume_at = monotonic w + 30, alive = True\<rparr>]"
  "clock (process_transaction_background_sleep tid w) = clock w"
  "monotonic (process_transaction_background_sleep tid w) = monotonic w"
  "unique_index (process_transaction_background_sleep tid w) = unique_index w"
  "serving (process_transaction_background_sleep tid w) = serving w"
  by (simp_all add: process_transaction_background_sleep_def Let_def)

lemma sbp_None:
  "start_background_processing None tid w =
     Inr (logger_info (''Background processing thread started for: '' @ tid)
            (process_transaction_background_sleep tid w))"
  by (simp add: start_background_processing_def)

lemma sbp_Some [simp]: "start_background_processing (Some e) tid w = Inl e"
  by (simp add: start_background_processing_def)

lemma insert_failed_fields [simp]:
  "docs (snd (insert_failed L e tid w)) = docs w"
  "threads (snd (insert_failed L e tid w)) = threads w"
  "clock (snd (insert_failed L e tid w)) = clock w"
  "monotonic (snd (insert_failed L e tid w)) = monotonic w"
  "unique_index (snd (insert_failed L e tid w)) = unique_index w"
  "serving (snd (insert_failed L e tid w)) = serving w"
  by (simp_all add: insert_failed_def)

lemma insert_failed_fst:
  "fst (insert_failed L e tid w) =
     (if str_in ''duplicate key'' (L e) then Inr ''Webhook received''
      else Inl (HTTPException 500 ''Failed to process webhook''))"
  by (simp add: insert_failed_def)

lemma receive_webhook_fault:
  "receive_webhook L (Some e) tfault r w =
     insert_failed L e (transaction_id r)
       (logger_info (''Received webhook for transaction: '' @ transaction_id r) w)"
  by (simp add: receive_webhook_def insert_one_def Let_def)

lemma receive_webhook_dup:
  "unique_index w \<Longrightarrow> transaction_id r \<in> transaction_id ` set (docs w) \<Longrightarrow>
   receive_webhook L None tfault r w =
     insert_failed L (E11000 (transaction_id r)) (transaction_id r)
       (logger_info (''Received webhook for transaction: '' @ transaction_id r) w)"
  by (simp add: receive_webhook_def insert_one_def Let_def)

lemma receive_webhook_new:
  assumes "\<not> (unique_index w \<and> transaction_id r \<in> transaction_id ` set (docs w))"
  shows "fst (receive_webhook L None None r w) = Inr ''Webhook received''"
    and "docs (snd (receive_webhook L None tfault r w)) = docs w @
       [\<lparr>transaction_id = transaction_id r, source_account = source_account r,
         destination_account = destination_account r, amount = amount r,
         currency = currency r, status = ''PROCESSING'', created_at = clock w,
         processed_at = None\<rparr>]"
    and "threads (snd (receive_webhook L None None r w)) =
       threads w @ [\<lparr>args = transaction_id r, resume_at = monotonic w + 30, alive = True\<rparr>]"
    and "threads (snd (receive_webhook L None (Some e) r w)) = threads w"
    and "fst (receive_webhook L None (Some e) r w) =
       (if str_in ''duplicate key'' (L e) then Inr ''Webhook received''
        else Inl (HTTPException 500 ''Failed to process webhook''))"
    and "clock (snd (receive_webhook L None tfault r w)) = clock w"
    and "monotonic (snd (receive_webhook L None tfault r w)) = monotonic w"
    and "unique_index (snd (receive_webhook L None tfault r w)) = unique_index w"
    and "serving (snd (receive_webhook L None tfault r w)) = serving w"
  using assms
  by (cases tfault; auto simp: receive_webhook_def insert_one_def Let_def sbp_None insert_failed_fst)+

lemma receive_webhook_frame:
  "clock (snd (receive_webhook L fault tfault r w)) = clock w"
  "monotonic (snd (receive_webhook L fault tfault r w)) = monotonic w"
  "unique_index (snd (receive_webhook L fault tfault r w)) = unique_index w"
  "serving (snd (receive_webhook L fault tfault r w)) = serving w"
proof -
  consider (failed) e where "fault = Some e"
    | (dup) "fault = None" "unique_index w \<and> transaction_id r \<in> transaction_id ` set (docs w)"
    | (new) "fault = None" "\<not> (unique_index w \<and> transaction_id r \<in> transaction_id ` set (docs w))"
    by (cases fault) auto
  then have "clock (snd (receive_webhook L fault tfault r w)) = clock w \<and>
    monotonic (snd (receive_webhook L fault tfault r w)) = monotonic w \<and>
    unique_index (snd (receive_webhook L fault tfault r w)) = unique_index w \<and>
    serving (snd (receive_webhook L fault tfault r w)) = serving w"
  proof cases
    case failed
    then show ?thesis by (simp add: receive_webhook_fault)
  next
    case dup
    then show ?thesis by (simp add: receive_webhook_dup)
  next
    case new
    then show ?thesis by (simp add: receive_webhook_new)
  qed
  then show "clock (snd (receive_webhook L fault tfault r w)) = clock w"
    "monotonic (snd (receive_webhook L fault tfault r w)) = monotonic w"
    "unique_index (snd (receive_webhook L fault tfault r w)) = unique_index w"
    "serving (snd (receive_webhook L fault tfault r w)) = serving w"
    by simp_all
qed

lemma run_Cons_snd [simp]: "snd (run L (e # es) w) = snd (run L es (snd (step L e w)))"
  by (simp add: split_beta)

lemma run_Cons_fst [simp]:
  "fst (run L (e # es) w) = fst (step L e w) # fst (run L es (snd (step L e w)))"
  by (simp add: split_beta)

lemma run_Nil_simps [simp]: "snd (run L [] w) = w" "fst (run L [] w) = []"
  by simp_all

declare run.simps(2) [simp del]

lemma step_Post:
  "step L (Post r fault tfault) w =
     (if \<not> serving w then (ConnectionRefused, w)
      else case WebhookRequest_validate r of
             Inl errors \<Rightarrow> (Http 422 (Errors errors), w)
           | Inr webhook_data \<Rightarrow>
               (case fst (receive_webhook L fault tfault webhook_data w) of
                  Inr msg \<Rightarrow>
                    (Http 202 (Message msg), snd (receive_webhook L fault tfault webhook_data w))
                | Inl (HTTPException code detail) \<Rightarrow>
                    (Http code (Detail detail),
                     snd (receive_webhook L fault tfault webhook_data w))))"
  by (simp split: sum.splits prod.splits http_exception.splits)

lemma validate_Inr: "WebhookRequest_validate r = Inr r' \<Longrightarrow> r' = r"
  by (simp add: WebhookRequest_validate_def Let_def split: if_splits)

lemma receive_webhook_docs:
  "(docs (snd (receive_webhook L fault tfault r w)) = docs w \<and>
    threads (snd (receive_webhook L fault tfault r w)) = threads w) \<or>
   (\<not> (unique_index w \<and> transaction_id r \<in> transaction_id ` set (docs w)) \<and>
    docs (snd (receive_webhook L fault tfault r w)) = docs w @
       [\<lparr>transaction_id = transaction_id r, source_account = source_account r,
         destination_account = destination_account r, amount = amount r,
         currency = currency r, status = ''PROCESSING'', created_at = clock w,
         processed_at = None\<rparr>] \<and>
    (threads (snd (receive_webhook L fault tfault r w)) =
       threads w @ [\<lparr>args = transaction_id r, resume_at = monotonic w + 30, alive = True\<rparr>] \<or>
     threads (snd (receive_webhook L fault tfault r w)) = threads w))"
proof -
  consider (failed) e where "fault = Some e"
    | (dup) "fault = None" "unique_index w \<and> transaction_id r \<in> transaction_id ` set (docs w)"
    | (new) "fault = None" "\<not> (unique_index w \<and> transaction_id r \<in> transaction_id ` set (docs w))"
    by (cases fault) auto
  then show ?thesis
  proof cases
    case failed
    then show ?thesis by (simp add: receive_webhook_fault)
  next
    case dup
    then show ?thesis by (simp add: receive_webhook_dup)
  next
    case new
    show ?thesis
    proof (cases tfault)
      case None
      with new receive_webhook_new(2,3) [OF new(2), of L] show ?thesis by simp
    next
      case (Some e)
      with new receive_webhook_new(2,4) [OF new(2), of L] show ?thesis by simp
    qed
  qed
qed

lemma startup_fields [simp]:
  "docs (snd (startup_event fault w)) = docs w"
  "threads (snd (startup_event fault w)) = threads w"
  "clock (snd (startup_event fault w)) = clock w"
  "monotonic (snd (startup_event fault w)) = monotonic w"
  by (simp_all add: startup_event_def create_index_def split: option.splits)


lemma gts_fields [simp]:
  "docs (snd (get_transaction_status fault tid w)) = docs w"
  "threads (snd (get_transaction_status fault tid w)) = threads w"
  "clock (snd (get_transaction_status fault tid w)) = clock w"
  "monotonic (snd (get_transaction_status fault tid w)) = monotonic w"
  "unique_index (snd (get_transaction_status fault tid w)) = unique_index w"
  "serving (snd (get_transaction_status fault tid w)) = serving w"
  by (simp_all add: get_transaction_status_def find_one_def Let_def split: option.splits sum.splits)

lemma ptb_fields [simp]:
  "clock (snd (process_transaction_background fault tid w)) = clock w"
  "monotonic (snd (process_transaction_background fault tid w)) = monotonic w"
  "unique_index (snd (process_transaction_background fault tid w)) = unique_index w"
  "serving (snd (process_transaction_background fault tid w)) = serving w"
  by (auto simp: process_transaction_background_def update_one_def split: option.splits sum.splits)

lemma step_Startup_snd:
  "snd (step L (Startup fault) w) = (snd (startup_event fault w))\<lparr>serving := True\<rparr>"
  by (simp add: startup_event_def split: sum.splits)

lemma step_Get_snd:
  "snd (step L (Get tid fault) w) =
     (if serving w then snd (get_transaction_status fault tid w) else w)"
  by (simp split: prod.splits sum.splits http_exception.splits)

lemma step_Post_snd:
  "snd (step L (Post r fault tfault) w) =
     (if serving w \<and> WebhookRequest_validate r = Inr r
      then snd (receive_webhook L fault tfault r w) else w)"
proof (cases "WebhookRequest_validate r")
  case (Inl errs)
  then show ?thesis by simp
next
  case (Inr r')
  then have "r' = r" by (rule validate_Inr)
  with Inr show ?thesis
    by (simp only: step_Post) (simp split: sum.splits http_exception.splits)
qed

lemma step_Wake_snd:
  "snd (step L (Wake i fault) w) =
     (if i < length (threads w) \<and> alive (threads w ! i) \<and> resume_at (threads w ! i) \<le> monotonic w
      then (snd (process_transaction_background fault (args (threads w ! i)) w))
             \<lparr>threads := (threads w)[i := (threads w ! i)\<lparr>alive := False\<rparr>]\<rparr>
      else w)"
  by (simp add: Let_def ptb_threads)

lemma step_Tick_snd:
  "snd (step L (Tick n) w) = w\<lparr>clock := clock w + n, monotonic := monotonic w + n\<rparr>"
  by simp

lemma step_Adjust_snd: "snd (step L (Adjust d) w) = w\<lparr>clock := nat (int (clock w) + d)\<rparr>"
  by simp

lemmas step_snd =
  step_Startup_snd step_Get_snd step_Post_snd step_Wake_snd step_Tick_snd step_Adjust_snd

text \<open>How one event changes the collection and the threads.\<close>

lemma step_shape:
  "(docs (snd (step L e w)) = docs w \<and>
      map args (threads (snd (step L e w))) = map args (threads w)) \<or>
   (\<exists>(r::WebhookRequest) ths.
      \<not> (unique_index w \<and> transaction_id r \<in> transaction_id ` set (docs w)) \<and>
      docs (snd (step L e w)) = docs w @
       [\<lparr>transaction_id = transaction_id r, source_account = source_account r,
         destination_account = destination_account r, amount = amount r,
         currency = currency r, status = ''PROCESSING'', created_at = clock w,
         processed_at = None\<rparr>] \<and>
      threads (snd (step L e w)) = threads w @ ths \<and> length ths \<le> 1 \<and>
      list_all (\<lambda>th. args th = transaction_id r) ths) \<or>
   (\<exists>tid. docs (snd (step L e w)) =
        update_first (\<lambda>d. transaction_id d = tid) (set_processed (clock w)) (docs w) \<and>
      map args (threads (snd (step L e w))) = map args (threads w))"
proof (cases e)
  case (Startup fault)
  then show ?thesis by (simp only: step_snd) simp
next
  case (Post r fault tfault)
  show ?thesis
  proof (cases "serving w \<and> WebhookRequest_validate r = Inr r")
    case False
    with Post show ?thesis by (simp only: step_snd) simp
  next
    case True
    with Post have s: "snd (step L e w) = snd (receive_webhook L fault tfault r w)"
      by (simp only: step_snd) simp
    from receive_webhook_docs [of L fault tfault r w] show ?thesis
    proof
      assume "docs (snd (receive_webhook L fault tfault r w)) = docs w \<and>
        threads (snd (receive_webhook L fault tfault r w)) = threads w"
      with s show ?thesis by simp
    next
      assume h: "\<not> (unique_index w \<and> transaction_id r \<in> transaction_id ` set (docs w)) \<and>
        docs (snd (receive_webhook L fault tfault r w)) = docs w @
         [\<lparr>transaction_id = transaction_id r, source_account = source_account r,
           destination_account = destination_account r, amount = amount r,
           currency = currency r, status = ''PROCESSING'', created_at = clock w,
           processed_at = None\<rparr>] \<and>
        (threads (snd (receive_webhook L fault tfault r w)) =
           threads w @ [\<lparr>args = transaction_id r, resume_at = monotonic w + 30, alive = True\<rparr>] \<or>
         threads (snd (receive_webhook L fault tfault r w)) = threads w)"
      then have "\<exists>ths. threads (snd (receive_webhook L fault tfault r w)) = threads w @ ths \<and>
          length ths \<le> 1 \<and> list_all (\<lambda>th. args th = transaction_id r) ths"
      proof (elim conjE disjE)
        assume "threads (snd (receive_webhook L fault tfault r w)) =
           threads w @ [\<lparr>args = transaction_id r, resume_at = monotonic w + 30, alive = True\<rparr>]"
        then show ?thesis
          by (intro exI [of _ "[\<lparr>args = transaction_id r, resume_at = monotonic w + 30, alive = True\<rparr>]"]) simp
      next
        assume "threads (snd (receive_webhook L fault tfault r w)) = threads w"
        then show ?thesis by (intro exI [of _ "[]"]) simp
      qed
      then obtain ths where
        "threads (snd (receive_webhook L fault tfault r w)) = threads w @ ths"
        "length ths \<le> 1" "list_all (\<lambda>th. args th = transaction_id r) ths"
        by blast
      with s h have "\<exists>(r::WebhookRequest) ths.
        \<not> (unique_index w \<and> transaction_id r \<in> transaction_id ` set (docs w)) \<and>
        docs (snd (step L e w)) = docs w @
         [\<lparr>transaction_id = transaction_id r, source_account = source_account r,
           destination_account = destination_account r, amount = amount r,
           currency = currency r, status = ''PROCESSING'', created_at = clock w,
           processed_at = None\<rparr>] \<and>
        threads (snd (step L e w)) = threads w @ ths \<and> length ths \<le> 1 \<and>
        list_all (\<lambda>th. args th = transaction_id r) ths"
        by - (rule exI [of _ r], rule exI [of _ ths], simp)
      then show ?thesis by (rule disjI2 [OF disjI1])
    qed
  qed
next
  case (Get tid fault)
  then show ?thesis by (simp only: step_snd) simp
next
  case (Tick n)
  then show ?thesis by simp
next
  case (Adjust d)
  then show ?thesis by simp
next
  case (Wake i fault)
  show ?thesis
  proof (cases "i < length (threads w) \<and> alive (threads w ! i) \<and> resume_at (threads w ! i) \<le> monotonic w")
    case False
    with Wake show ?thesis by (simp only: step_snd) simp
  next
    case True
    with Wake have t: "map args (threads (snd (step L e w))) = map args (threads w)"
      by (simp only: step_snd) (simp add: map_update list_update_same_conv)
    show ?thesis
    proof (cases fault)
      case None
      with Wake True have "docs (snd (step L e w)) =
        update_first (\<lambda>d. transaction_id d = args (threads w ! i)) (set_processed (clock w)) (docs w)"
        by (simp only: step_snd) (simp add: ptb_docs)
      with t show ?thesis by blast
    next
      case (Some x)
      with Wake True have "docs (snd (step L e w)) = docs w"
        by (simp only: step_snd) (simp add: ptb_docs)
      with t show ?thesis by blast
    qed
  qed
qed

lemma step_monotonic: "monotonic w \<le> monotonic (snd (step L e w))"
  by (cases e) (simp_all only: step_snd, simp_all add: receive_webhook_frame)




subsection \<open>Validation\<close>

text \<open>
  C2. A request whose amount is zero or negative, or whose currency is not exactly
  three characters long, fails validation with a non-empty list of violated
  constraints; the answer is the 422 of a validation error and the state is left as
  it was: no insert is attempted, nothing is stored, no thread is started and nothing
  is logged.
\<close>

theorem validation_rejects:
  "amount r \<le> 0 \<or> length (currency r) \<noteq> 3 \<Longrightarrow>
     \<exists>errors. errors \<noteq> [] \<and> WebhookRequest_validate r = Inl errors \<and>
       step L (Post r fault tfault) w =
         (if serving w then Http 422 (Errors errors) else ConnectionRefused, w)"
  by (auto simp: WebhookRequest_validate_def Let_def)

theorem validation_rejects_witness:
  "amount (T1\<lparr>amount := 0\<rparr>) \<le> 0 \<and>
   step ascii_lower (Post (T1\<lparr>amount := 0\<rparr>) None None) live_world =
     (Http 422 (Errors [(''amount'', Gt)]), live_world)"
  using validation_rejects [of "T1\<lparr>amount := 0\<rparr>" ascii_lower None None live_world]
  by (simp add: T1_def live_world_def WebhookRequest_validate_def)

subsection \<open>Failures of the insert\<close>



subsection \<open>The worker's update\<close>



subsection \<open>Failures of the worker\<close>

text \<open>
  C5. \<^verbatim>\<open>process_transaction_background\<close> never raises. When the update modifies no
  document, the state afterwards is the state before with one WARNING entry added at
  the end of the log; when the update raises, it is the state before with one ERROR
  entry added, which carries the text of the exception. In every case no thread is
  started (no retry), every document of another \<^verbatim>\<open>transaction_id\<close> is unchanged, and
  running a worker leaves every other thread as it was.
\<close>

theorem worker_failure_is_contained:
  "fst (process_transaction_background fault tid w) = Inr () \<and>
   threads (snd (process_transaction_background fault tid w)) = threads w \<and>
   length (docs (snd (process_transaction_background fault tid w))) = length (docs w) \<and>
   (\<forall>j<length (docs w). transaction_id (docs w ! j) \<noteq> tid \<longrightarrow>
      docs (snd (process_transaction_background fault tid w)) ! j = docs w ! j) \<and>
   (\<forall>w1. update_one fault tid (clock w) w = Inr (0, w1) \<longrightarrow>
      snd (process_transaction_background fault tid w) =
        w\<lparr>logger := logger w @ [(WARNING, ''Failed to update transaction: '' @ tid)]\<rparr>) \<and>
   (\<forall>e. fault = Some e \<longrightarrow>
      snd (process_transaction_background fault tid w) =
        w\<lparr>logger := logger w @
          [(ERROR, ''Error processing transaction '' @ tid @ '': '' @ e)]\<rparr>) \<and>
   fst (step L (Wake i fault) w) = Internal \<and>
   length (threads (snd (step L (Wake i fault) w))) = length (threads w) \<and>
   (\<forall>k<length (threads w). k \<noteq> i \<longrightarrow> threads (snd (step L (Wake i fault) w)) ! k = threads w ! k)"
proof (intro conjI)
  show "fst (process_transaction_background fault tid w) = Inr ()"
    by (rule ptb_fst)
  show "threads (snd (process_transaction_background fault tid w)) = threads w"
    by (rule ptb_threads)
  show "length (docs (snd (process_transaction_background fault tid w))) = length (docs w)"
    by (simp add: ptb_docs split: option.splits)
  show "\<forall>j<length (docs w). transaction_id (docs w ! j) \<noteq> tid \<longrightarrow>
      docs (snd (process_transaction_background fault tid w)) ! j = docs w ! j"
    by (simp add: ptb_other_docs)
  show "\<forall>w1. update_one fault tid (clock w) w = Inr (0, w1) \<longrightarrow>
      snd (process_transaction_background fault tid w) =
        w\<lparr>logger := logger w @ [(WARNING, ''Failed to update transaction: '' @ tid)]\<rparr>"
    by (simp add: ptb_zero logger_warning_def)
  show "\<forall>e. fault = Some e \<longrightarrow>
      snd (process_transaction_background fault tid w) =
        w\<lparr>logger := logger w @
          [(ERROR, ''Error processing transaction '' @ tid @ '': '' @ e)]\<rparr>"
    by (simp add: process_transaction_background_def logger_error_def)
  show "fst (step L (Wake i fault) w) = Internal"
    by (simp add: Let_def)
  show "length (threads (snd (step L (Wake i fault) w))) = length (threads w)"
    using step_Wake_threads by blast
  show "\<forall>k<length (threads w). k \<noteq> i \<longrightarrow> threads (snd (step L (Wake i fault) w)) ! k = threads w ! k"
    using step_Wake_threads by blast
qed

theorem worker_failure_is_contained_witness:
  "logger (snd (process_transaction_background None ''T9'' busy_world)) =
     [(WARNING, ''Failed to update transaction: T9'')] \<and>
   docs (snd (process_transaction_background None ''T9'' busy_world)) = [doc_T1, doc_T2] \<and>
   logger (snd (process_transaction_background (Some ''timed out'') ''T1'' busy_world)) =
     [(ERROR, ''Error processing transaction T1: timed out'')] \<and>
   docs (snd (process_transaction_background (Some ''timed out'') ''T1'' busy_world)) =
     [doc_T1, doc_T2] \<and>
   docs (snd (process_transaction_background None ''T1'' busy_world)) ! 1 = doc_T2 \<and>
   threads (snd (step ascii_lower (Wake 0 None) busy_world)) ! 1 = threads busy_world ! 1"
proof -
  have u: "update_one None ''T9'' (clock busy_world) busy_world = Inr (0, busy_world)"
    by (simp add: update_one_def busy_world_def doc_T1_def doc_T2_def)
  have l: "1 < length (docs busy_world)" "transaction_id (docs busy_world ! 1) \<noteq> ''T1''"
    "docs busy_world ! 1 = doc_T2" "1 < length (threads busy_world)"
    by (simp_all add: busy_world_def doc_T2_def)
  have f: "logger busy_world = []" "docs busy_world = [doc_T1, doc_T2]"
    by (simp_all add: busy_world_def)
  from worker_failure_is_contained [of None "''T9''" busy_world ascii_lower 0] u
  have a: "snd (process_transaction_background None ''T9'' busy_world) =
        busy_world\<lparr>logger := logger busy_world @
          [(WARNING, ''Failed to update transaction: '' @ ''T9'')]\<rparr>"
    by blast
  from worker_failure_is_contained [of "Some ''timed out''" "''T1''" busy_world ascii_lower 0]
  have b: "snd (process_transaction_background (Some ''timed out'') ''T1'' busy_world) =
        busy_world\<lparr>logger := logger busy_world @
          [(ERROR, ''Error processing transaction '' @ ''T1'' @ '': '' @ ''timed out'')]\<rparr>"
    by blast
  from worker_failure_is_contained [of None "''T1''" busy_world ascii_lower 0] l
  have c: "docs (snd (process_transaction_background None ''T1'' busy_world)) ! 1 = docs busy_world ! 1"
    by blast
  from worker_failure_is_contained [of None "''T1''" busy_world ascii_lower 0] l
  have d: "threads (snd (step ascii_lower (Wake 0 None) busy_world)) ! 1 = threads busy_world ! 1"
    by simp
  from c d l(3) show ?thesis
    by (simp add: a b f)
qed

subsection \<open>The status query\<close>

text \<open>
  C6. When the lookup finds no document for the \<^verbatim>\<open>transaction_id\<close>, the query raises
  the 404 with the detail \<^verbatim>\<open>Transaction not found: <id>\<close>, not the 500; when it finds
  one, the answer is that document with its eight fields. The query changes neither
  the collection nor the threads.
\<close>

theorem status_query_record_or_404:
  "(tid \<notin> transaction_id ` set (docs w) \<longrightarrow>
      fst (get_transaction_status None tid w) =
        Inl (HTTPException 404 (''Transaction not found: '' @ tid)) \<and>
      (serving w \<longrightarrow> fst (step L (Get tid None) w) =
        Http 404 (Detail (''Transaction not found: '' @ tid)))) \<and>
   (\<forall>d. find (\<lambda>d. transaction_id d = tid) (docs w) = Some d \<longrightarrow>
      fst (get_transaction_status None tid w) = Inr d \<and>
      (serving w \<longrightarrow> fst (step L (Get tid None) w) = Http 200 (Record d))) \<and>
   (tid \<in> transaction_id ` set (docs w) \<longrightarrow>
      (\<exists>d\<in>set (docs w). transaction_id d = tid \<and>
         fst (get_transaction_status None tid w) = Inr d)) \<and>
   docs (snd (get_transaction_status fault tid w)) = docs w \<and>
   threads (snd (get_transaction_status fault tid w)) = threads w"
proof (intro conjI impI allI)
  assume "tid \<notin> transaction_id ` set (docs w)"
  then have n: "find (\<lambda>d. transaction_id d = tid) (docs w) = None"
    by (rule find_not_in_image)
  then show "fst (get_transaction_status None tid w) =
        Inl (HTTPException 404 (''Transaction not found: '' @ tid))"
    by (simp add: get_transaction_status_def find_one_def logger_info_def)
  assume "serving w"
  with n show "fst (step L (Get tid None) w) = Http 404 (Detail (''Transaction not found: '' @ tid))"
    by (simp add: get_transaction_status_def find_one_def logger_info_def)
next
  fix d assume f: "find (\<lambda>d. transaction_id d = tid) (docs w) = Some d"
  then show "fst (get_transaction_status None tid w) = Inr d"
    by (simp add: get_transaction_status_def find_one_def logger_info_def)
  assume "serving w"
  with f show "fst (step L (Get tid None) w) = Http 200 (Record d)"
    by (simp add: get_transaction_status_def find_one_def logger_info_def)
next
  assume "tid \<in> transaction_id ` set (docs w)"
  then obtain d where "d \<in> set (docs w)" "transaction_id d = tid"
    "find (\<lambda>d. transaction_id d = tid) (docs w) = Some d"
    using find_in_image [of tid transaction_id "docs w"] by blast
  then show "\<exists>d\<in>set (docs w). transaction_id d = tid \<and>
         fst (get_transaction_status None tid w) = Inr d"
    by (auto simp: get_transaction_status_def find_one_def logger_info_def)
next
  show "docs (snd (get_transaction_status fault tid w)) = docs w"
    by (simp add: get_transaction_status_def find_one_def logger_info_def logger_error_def
        Let_def split: option.splits sum.splits)
  show "threads (snd (get_transaction_status fault tid w)) = threads w"
    by (simp add: get_transaction_status_def find_one_def logger_info_def logger_error_def
        Let_def split: option.splits sum.splits)
qed

theorem status_query_record_or_404_witness:
  "fst (step ascii_lower (Get ''T7'' None) busy_world) =
     Http 404 (Detail ''Transaction not found: T7'') \<and>
   fst (step ascii_lower (Get ''T2'' None) busy_world) = Http 200 (Record doc_T2)"
proof -
  have a: "''T7'' \<notin> transaction_id ` set (docs busy_world)"
    by (simp add: busy_world_def doc_T1_def doc_T2_def)
  have s: "serving busy_world"
    by (simp add: busy_world_def)
  have b: "find (\<lambda>d. transaction_id d = ''T2'') (docs busy_world) = Some doc_T2"
    by (simp add: busy_world_def doc_T1_def doc_T2_def)
  from status_query_record_or_404 [of "''T7''" busy_world ascii_lower None] a s
  have 1: "fst (step ascii_lower (Get ''T7'' None) busy_world) =
      Http 404 (Detail (''Transaction not found: '' @ ''T7''))"
    by blast
  from status_query_record_or_404 [of "''T2''" busy_world ascii_lower None] b s
  have 2: "fst (step ascii_lower (Get ''T2'' None) busy_world) = Http 200 (Record doc_T2)"
    by blast
  from 1 2 show ?thesis by simp
qed

subsection \<open>Startup\<close>

text \<open>
  C7, as stated, fails: when \<^verbatim>\<open>create_index\<close> raises, \<^verbatim>\<open>startup_event\<close> catches the
  exception, so the application starts serving without the unique index.
\<close>

theorem startup_tolerates_missing_index:
  "\<not> unique_index (snd (step ascii_lower (Startup (Some ''localhost:27017: [Errno 111] Connection refused'')) init_world)) \<and>
   serving (snd (step ascii_lower (Startup (Some ''localhost:27017: [Errno 111] Connection refused'')) init_world)) \<and>
   fst (startup_event (Some ''localhost:27017: [Errno 111] Connection refused'') init_world) = Inr ()"
  by (simp add: startup_event_def create_index_def init_world_def logger_error_def)

text \<open>
  C7, amended. \<^verbatim>\<open>startup_event\<close> never raises and the application starts serving in
  every case. When the creation of the index fails, the failure is reported by one
  ERROR entry in the log, with the text of the exception, and the state is otherwise
  unchanged; when it succeeds, the unique index is in place.
\<close>

theorem startup_logs_index_failure:
  "fst (startup_event fault w) = Inr () \<and>
   serving (snd (step L (Startup fault) w)) \<and>
   (\<forall>e. create_index fault w = Inl e \<longrightarrow>
      snd (startup_event fault w) = logger_error (''Failed to create indexes: '' @ e) w) \<and>
   (\<forall>w1. create_index fault w = Inr w1 \<longrightarrow>
      snd (startup_event fault w) = logger_info ''Database indexes created'' (w\<lparr>unique_index := True\<rparr>))"
  by (auto simp: startup_event_def create_index_def split: sum.splits option.splits if_splits)

theorem startup_logs_index_failure_witness:
  "snd (startup_event (Some ''timed out'') init_world) =
     init_world\<lparr>logger := [(ERROR, ''Failed to create indexes: timed out'')]\<rparr> \<and>
   snd (startup_event None init_world) =
     init_world\<lparr>unique_index := True, logger := [(INFO, ''Database indexes created'')]\<rparr>"
proof -
  have a: "create_index (Some ''timed out'') init_world = Inl ''timed out''"
    by (simp add: create_index_def)
  have b: "create_index None init_world = Inr (init_world\<lparr>unique_index := True\<rparr>)"
    by (simp add: create_index_def init_world_def)
  from startup_logs_index_failure [of "Some ''timed out''" init_world] a startup_logs_index_failure [of None init_world] b
  show ?thesis by (simp add: logger_error_def logger_info_def init_world_def)
qed

subsection \<open>What the worker leaves alone\<close>

text \<open>
  C10. Whatever the worker's update does, the collection keeps its length and every
  document keeps its \<^verbatim>\<open>transaction_id\<close>, \<^verbatim>\<open>source_account\<close>, \<^verbatim>\<open>destination_account\<close>,
  \<^verbatim>\<open>amount\<close>, \<^verbatim>\<open>currency\<close> and \<^verbatim>\<open>created_at\<close>.
\<close>

theorem worker_writes_only_status_and_processed_at:
  "length (docs (snd (process_transaction_background fault tid w))) = length (docs w) \<and>
   (\<forall>j<length (docs w).
      transaction_id (docs (snd (process_transaction_background fault tid w)) ! j) = transaction_id (docs w ! j) \<and>
      source_account (docs (snd (process_transaction_background fault tid w)) ! j) = source_account (docs w ! j) \<and>
      destination_account (docs (snd (process_transaction_background fault tid w)) ! j) = destination_account (docs w ! j) \<and>
      amount (docs (snd (process_transaction_background fault tid w)) ! j) = amount (docs w ! j) \<and>
      currency (docs (snd (process_transaction_background fault tid w)) ! j) = currency (docs w ! j) \<and>
      created_at (docs (snd (process_transaction_background fault tid w)) ! j) = created_at (docs w ! j))"
proof (intro conjI allI impI)
  show "length (docs (snd (process_transaction_background fault tid w))) = length (docs w)"
    by (simp add: ptb_docs split: option.splits)
next
  fix j assume j: "j < length (docs w)"
  let ?d = "docs (snd (process_transaction_background fault tid w)) ! j"
  have "?d = docs w ! j \<or> ?d = set_processed (clock w) (docs w ! j)"
    using nth_update_first [OF j, of "\<lambda>d. transaction_id d = tid" "set_processed (clock w)"]
    by (auto simp: ptb_docs split: option.splits)
  then have "transaction_id ?d = transaction_id (docs w ! j) \<and>
    source_account ?d = source_account (docs w ! j) \<and>
    destination_account ?d = destination_account (docs w ! j) \<and>
    amount ?d = amount (docs w ! j) \<and>
    currency ?d = currency (docs w ! j) \<and>
    created_at ?d = created_at (docs w ! j)"
    by (auto simp: set_processed_def)
  then show "transaction_id ?d = transaction_id (docs w ! j)"
    "source_account ?d = source_account (docs w ! j)"
    "destination_account ?d = destination_account (docs w ! j)"
    "amount ?d = amount (docs w ! j)"
    "currency ?d = currency (docs w ! j)"
    "created_at ?d = created_at (docs w ! j)"
    by simp_all
qed

theorem worker_writes_only_status_and_processed_at_witness:
  "docs (snd (process_transaction_background None ''T1'' busy_world)) =
     [doc_T1\<lparr>status := ''PROCESSED'', processed_at := Some 135\<rparr>, doc_T2] \<and>
   (0::nat) < length (docs busy_world) \<and>
   amount (docs (snd (process_transaction_background None ''T1'' busy_world)) ! 0) = amount doc_T1 \<and>
   created_at (docs (snd (process_transaction_background None ''T1'' busy_world)) ! 0) = created_at doc_T1"
proof -
  have l: "(0::nat) < length (docs busy_world)"
    by (simp add: busy_world_def)
  have z: "docs busy_world ! 0 = doc_T1"
    by (simp add: busy_world_def)
  have d: "docs (snd (process_transaction_background None ''T1'' busy_world)) =
     [doc_T1\<lparr>status := ''PROCESSED'', processed_at := Some 135\<rparr>, doc_T2]"
    by (simp add: ptb_docs busy_world_def doc_T1_def doc_T2_def set_processed_def)
  from worker_writes_only_status_and_processed_at [of None "''T1''" busy_world] l
  have "amount (docs (snd (process_transaction_background None ''T1'' busy_world)) ! 0) = amount (docs busy_world ! 0) \<and>
        created_at (docs (snd (process_transaction_background None ''T1'' busy_world)) ! 0) = created_at (docs busy_world ! 0)"
    by blast
  with l d show ?thesis
    by (simp only: z simp_thms)
qed

subsection \<open>Idempotent intake\<close>




















subsection \<open>The status only moves forward\<close>

lemma step_status_consistent:
  assumes "\<forall>d\<in>set (docs w). status_consistent d"
  shows "\<forall>d\<in>set (docs (snd (step L e w))). status_consistent d"
  using step_shape [of L e w]
proof (elim disjE exE conjE)
  assume "docs (snd (step L e w)) = docs w"
  with assms show ?thesis by simp
next
  fix r :: WebhookRequest
  assume "docs (snd (step L e w)) = docs w @
       [\<lparr>transaction_id = transaction_id r, source_account = source_account r,
         destination_account = destination_account r, amount = amount r,
         currency = currency r, status = ''PROCESSING'', created_at = clock w,
         processed_at = None\<rparr>]"
  with assms show ?thesis by (simp add: status_consistent_def)
next
  fix tid
  assume u: "docs (snd (step L e w)) =
        update_first (\<lambda>d. transaction_id d = tid) (set_processed (clock w)) (docs w)"
  show ?thesis
  proof
    fix d assume "d \<in> set (docs (snd (step L e w)))"
    with u set_update_first [of d "\<lambda>d. transaction_id d = tid" "set_processed (clock w)" "docs w"]
    have "d \<in> set (docs w) \<or> (\<exists>x\<in>set (docs w). d = set_processed (clock w) x)"
      by auto
    with assms show "status_consistent d"
      by (auto simp: status_consistent_def set_processed_def)
  qed
qed

lemma step_processed_stays:
  assumes "j < length (docs w)"
  shows "length (docs w) \<le> length (docs (snd (step L e w))) \<and>
         transaction_id (docs (snd (step L e w)) ! j) = transaction_id (docs w ! j) \<and>
         (status (docs w ! j) = ''PROCESSED'' \<longrightarrow> status (docs (snd (step L e w)) ! j) = ''PROCESSED'')"
  using step_shape [of L e w]
proof (elim disjE exE conjE)
  assume "docs (snd (step L e w)) = docs w"
  then show ?thesis by simp
next
  fix r :: WebhookRequest
  assume "docs (snd (step L e w)) = docs w @
       [\<lparr>transaction_id = transaction_id r, source_account = source_account r,
         destination_account = destination_account r, amount = amount r,
         currency = currency r, status = ''PROCESSING'', created_at = clock w,
         processed_at = None\<rparr>]"
  with assms show ?thesis by (simp add: nth_append)
next
  fix tid
  assume u: "docs (snd (step L e w)) =
        update_first (\<lambda>d. transaction_id d = tid) (set_processed (clock w)) (docs w)"
  from nth_update_first [OF assms, of "\<lambda>d. transaction_id d = tid" "set_processed (clock w)"] u
  show ?thesis by (auto simp: set_processed_def)
qed

lemma run_status_consistent:
  "\<forall>d\<in>set (docs w). status_consistent d \<Longrightarrow>
   \<forall>d\<in>set (docs (snd (run L evs w))). status_consistent d"
proof (induction evs arbitrary: w)
  case Nil
  then show ?case by simp
next
  case (Cons e es)
  from Cons.prems have "\<forall>d\<in>set (docs (snd (step L e w))). status_consistent d"
    by (rule step_status_consistent)
  then have "\<forall>d\<in>set (docs (snd (run L es (snd (step L e w))))). status_consistent d"
    by (rule Cons.IH)
  then show ?case by simp
qed

lemma run_processed_stays:
  "j < length (docs w) \<Longrightarrow>
     length (docs w) \<le> length (docs (snd (run L evs w))) \<and>
     transaction_id (docs (snd (run L evs w)) ! j) = transaction_id (docs w ! j) \<and>
     (status (docs w ! j) = ''PROCESSED'' \<longrightarrow> status (docs (snd (run L evs w)) ! j) = ''PROCESSED'')"
proof (induction evs arbitrary: w)
  case Nil
  then show ?case by simp
next
  case (Cons e es)
  let ?w1 = "snd (step L e w)"
  from step_processed_stays [OF Cons.prems, of L e]
  have s: "length (docs w) \<le> length (docs ?w1)"
    "transaction_id (docs ?w1 ! j) = transaction_id (docs w ! j)"
    "status (docs w ! j) = ''PROCESSED'' \<longrightarrow> status (docs ?w1 ! j) = ''PROCESSED''"
    by simp_all
  with Cons.prems have "j < length (docs ?w1)" by simp
  from Cons.IH [OF this] s show ?case by simp
qed

text \<open>
  C8. If every document has \<^verbatim>\<open>processed_at\<close> absent exactly when its status is
  \<^verbatim>\<open>PROCESSING\<close> and present exactly when it is \<^verbatim>\<open>PROCESSED\<close> (as in the empty collection),
  then so has every document after any sequence of events; every document keeps its
  position and its \<^verbatim>\<open>transaction_id\<close>, and one that was \<^verbatim>\<open>PROCESSED\<close> is \<^verbatim>\<open>PROCESSED\<close>
  afterwards.
\<close>

theorem status_moves_forward_only:
  assumes "\<forall>d\<in>set (docs w). status_consistent d"
  shows "(\<forall>d\<in>set (docs (snd (run L evs w))). status_consistent d) \<and>
         (\<forall>j<length (docs w).
            j < length (docs (snd (run L evs w))) \<and>
            transaction_id (docs (snd (run L evs w)) ! j) = transaction_id (docs w ! j) \<and>
            (status (docs w ! j) = ''PROCESSED'' \<longrightarrow>
               status (docs (snd (run L evs w)) ! j) = ''PROCESSED''))"
proof (intro conjI allI impI)
  show "\<forall>d\<in>set (docs (snd (run L evs w))). status_consistent d"
    using assms by (rule run_status_consistent)
next
  fix j assume j: "j < length (docs w)"
  from run_processed_stays [OF j, of L evs]
  show "j < length (docs (snd (run L evs w)))"
    "transaction_id (docs (snd (run L evs w)) ! j) = transaction_id (docs w ! j)"
    using j by simp_all
  assume "status (docs w ! j) = ''PROCESSED''"
  with run_processed_stays [OF j, of L evs]
  show "status (docs (snd (run L evs w)) ! j) = ''PROCESSED''" by simp
qed

theorem status_moves_forward_only_witness:
  "list_all status_consistent (docs settled_world) \<and>
   0 < length (docs settled_world) \<and>
   status (docs settled_world ! 0) = ''PROCESSED'' \<and>
   status (docs (snd (run ascii_lower demo_events settled_world)) ! 0) = ''PROCESSED'' \<and>
   list_all status_consistent (docs (snd (run ascii_lower demo_events settled_world)))"
proof -
  have h: "\<forall>d\<in>set (docs settled_world). status_consistent d"
    by (simp add: settled_world_def busy_world_def doc_T1_def doc_T2_def status_consistent_def)
  have l: "0 < length (docs settled_world)" "status (docs settled_world ! 0) = ''PROCESSED''"
    by (simp_all add: settled_world_def busy_world_def doc_T1_def)
  note c = status_moves_forward_only [OF h, of ascii_lower demo_events]
  from c have a: "\<forall>d\<in>set (docs (snd (run ascii_lower demo_events settled_world))). status_consistent d"
    by (rule conjunct1)
  from c l have b: "status (docs (snd (run ascii_lower demo_events settled_world)) ! 0) = ''PROCESSED''"
    by blast
  from h l a b show ?thesis by (simp only: list_all_iff simp_thms)
qed

subsection \<open>Creation precedes processing\<close>






end
